theory Spec2Isabelle
  imports Complex_Main
begin

section \<open>Python strings\<close>

text \<open>
  A Python \<open>str\<close> is modelled as a \<open>string\<close>, one \<open>char\<close> per code point; the
  character classes below are the ones of Python 3 on the code points 0 to 255.
\<close>

definition NL :: char where
  "NL = CHR 0x0A"

definition TAB :: char where
  "TAB = CHR 0x09"

text \<open>\<open>str.isalpha\<close> on one character.\<close>

definition isalpha :: "char \<Rightarrow> bool" where
  "isalpha c = (let n = (of_char c :: nat) in
     (65 \<le> n \<and> n \<le> 90) \<or> (97 \<le> n \<and> n \<le> 122) \<or> n = 170 \<or> n = 181 \<or> n = 186 \<or>
     (192 \<le> n \<and> n \<le> 214) \<or> (216 \<le> n \<and> n \<le> 246) \<or> (248 \<le> n \<and> n \<le> 255))"

text \<open>The characters \<open>str.strip()\<close> removes: those for which \<open>str.isspace\<close> holds.\<close>

definition isspace :: "char \<Rightarrow> bool" where
  "isspace c = (let n = (of_char c :: nat) in
     (9 \<le> n \<and> n \<le> 13) \<or> (28 \<le> n \<and> n \<le> 32) \<or> n = 133 \<or> n = 160)"

text \<open>\<open>str.isdigit\<close>: a non-empty string of digit characters.\<close>

definition isdigit_char :: "char \<Rightarrow> bool" where
  "isdigit_char c = (let n = (of_char c :: nat) in
     (48 \<le> n \<and> n \<le> 57) \<or> n = 178 \<or> n = 179 \<or> n = 185)"

definition isdigit :: "string \<Rightarrow> bool" where
  "isdigit s = (s \<noteq> [] \<and> list_all isdigit_char s)"

text \<open>\<open>str.lower\<close>.\<close>

definition lower_char :: "char \<Rightarrow> char" where
  "lower_char c = (let n = (of_char c :: nat) in
     if (65 \<le> n \<and> n \<le> 90) \<or> (192 \<le> n \<and> n \<le> 222 \<and> n \<noteq> 215) then char_of (n + 32) else c)"

definition lower :: "string \<Rightarrow> string" where
  "lower s = map lower_char s"

text \<open>\<open>str.strip()\<close> with no argument.\<close>

definition strip :: "string \<Rightarrow> string" where
  "strip s = rev (dropWhile isspace (rev (dropWhile isspace s)))"

text \<open>\<open>s.endswith(suffix)\<close> and \<open>s.startswith(prefix)\<close>.\<close>

definition endswith :: "string \<Rightarrow> string \<Rightarrow> bool" where
  "endswith s suffix = (length suffix \<le> length s \<and> drop (length s - length suffix) s = suffix)"

definition startswith :: "string \<Rightarrow> string \<Rightarrow> bool" where
  "startswith s prefix = (take (length prefix) s = prefix)"

text \<open>\<open>s.replace(a, b)\<close> for one-character \<open>a\<close> and \<open>b\<close>.\<close>

definition replace :: "char \<Rightarrow> char \<Rightarrow> string \<Rightarrow> string" where
  "replace a b s = map (\<lambda>c. if c = a then b else c) s"

text \<open>\<open>s.split(sep)\<close> for a one-character separator: never an empty list.\<close>

fun split :: "char \<Rightarrow> string \<Rightarrow> string list" where
  "split sep [] = [[]]"
| "split sep (c # cs) =
     (if c = sep then [] # split sep cs
      else (case split sep cs of [] \<Rightarrow> [[c]] | w # ws \<Rightarrow> (c # w) # ws))"

text \<open>\<open>sep.join(parts)\<close>.\<close>

fun join :: "string \<Rightarrow> string list \<Rightarrow> string" where
  "join sep [] = []"
| "join sep [w] = w"
| "join sep (w # ws) = w @ sep @ join sep ws"

text \<open>\<open>s.rfind(c)\<close>: the index of the last occurrence, \<open>-1\<close> when there is none.\<close>

fun rfind :: "char \<Rightarrow> string \<Rightarrow> int" where
  "rfind c [] = -1"
| "rfind c (x # xs) =
     (let r = rfind c xs in
      if r \<noteq> -1 then r + 1 else if x = c then 0 else -1)"

text \<open>
  \<open>os.path.splitext\<close> (posixpath): the extension starts at the last dot of the last
  path component, unless only dots precede it in the component.
\<close>

definition splitext :: "string \<Rightarrow> string \<times> string" where
  "splitext p =
     (let sepIndex = rfind (CHR ''/'') p;
          dotIndex = rfind (CHR ''.'') p
      in if dotIndex > sepIndex \<and>
            list_ex (\<lambda>c. c \<noteq> CHR ''.'') (take (nat (dotIndex - (sepIndex + 1))) (drop (nat (sepIndex + 1)) p))
         then (take (nat dotIndex) p, drop (nat dotIndex) p)
         else (p, []))"

text \<open>The decimal text of a natural number, as an f-string prints it.\<close>

fun str_nat :: "nat \<Rightarrow> string" where
  "str_nat n =
     (if n < 10 then [''0123456789'' ! n]
      else str_nat (n div 10) @ [''0123456789'' ! (n mod 10)])"

declare str_nat.simps [simp del]

section \<open>Face data management\<close>

text \<open>
  \<open>FaceDataManager\<close>: the known encodings and names (parallel lists) and the set of
  people logged today. \<open>'e\<close> is the type of a face encoding.
\<close>

record 'e FaceDataManager =
  known_encodings :: "'e list"
  known_names :: "string list"
  logged_people :: "string set"

datatype error = ValueError | IndexError | OSError

text \<open>
  The name cleanup of \<open>load_known_faces\<close>: the underscores of the file stem are replaced
  first, then a trailing numeric part is looked for after an underscore.
\<close>

definition clean_name :: "string \<Rightarrow> string" where
  "clean_name fname =
     (let name = replace (CHR ''_'') (CHR '' '') (fst (splitext fname))
      in if CHR ''_'' \<in> set name \<and> isdigit (last (split (CHR ''_'') name))
         then join ''_'' (butlast (split (CHR ''_'') name))
         else name)"

definition is_image_file :: "string \<Rightarrow> bool" where
  "is_image_file fname =
     (endswith (lower fname) ''.jpg'' \<or> endswith (lower fname) ''.jpeg'' \<or> endswith (lower fname) ''.png'')"

text \<open>
  The directory \<open>KnownFaces\<close> is \<open>None\<close> when it does not exist, and otherwise the
  list of its entries in the order \<open>os.listdir\<close> yields them, each with its content.
  \<open>face_encodings\<close> stands for loading the file and encoding its faces: \<open>None\<close> when
  either call raises (the exception is caught and printed), otherwise the encodings found.
\<close>

type_synonym 'i directory = "(string \<times> 'i) list option"

fun scan_faces :: "('i \<Rightarrow> 'e list option) \<Rightarrow> (string \<times> 'i) list \<Rightarrow> 'e list \<times> string list \<Rightarrow> 'e list \<times> string list" where
  "scan_faces face_encodings [] acc = acc"
| "scan_faces face_encodings ((fname, img) # rest) (temp_encodings, temp_names) =
     (if \<not> is_image_file fname then scan_faces face_encodings rest (temp_encodings, temp_names)
      else (case face_encodings img of
              None \<Rightarrow> scan_faces face_encodings rest (temp_encodings, temp_names)
            | Some [] \<Rightarrow> scan_faces face_encodings rest (temp_encodings, temp_names)
            | Some (enc # _) \<Rightarrow>
                scan_faces face_encodings rest (temp_encodings @ [enc], temp_names @ [clean_name fname])))"

definition load_known_faces ::
  "('i \<Rightarrow> 'e list option) \<Rightarrow> 'i directory \<Rightarrow> 'e FaceDataManager \<Rightarrow> 'e FaceDataManager \<times> 'i directory" where
  "load_known_faces face_encodings dir dm =
     (case dir of
        None \<Rightarrow> (dm, Some [])
      | Some entries \<Rightarrow>
          (let (temp_encodings, temp_names) = scan_faces face_encodings entries ([], [])
           in (dm\<lparr>known_encodings := temp_encodings, known_names := temp_names\<rparr>, dir)))"





subsection \<open>The attendance ledger\<close>

text \<open>
  The file \<open>Attendance.csv\<close> is \<open>None\<close> when it does not exist, and otherwise its
  text as text-mode reading and writing see it. \<open>readlines\<close> is the iteration over the
  lines of a text file: every line keeps its newline, the last one may lack it.
\<close>

fun readlines :: "string \<Rightarrow> string list" where
  "readlines [] = []"
| "readlines (c # cs) =
     (if c = NL then [c] # readlines cs
      else (case readlines cs of [] \<Rightarrow> [[c]] | l # ls \<Rightarrow> (c # l) # ls))"

definition log_line :: "string \<Rightarrow> string set \<Rightarrow> string \<Rightarrow> string set" where
  "log_line today_str logged line =
     (let parts = split (CHR '','') (strip line)
      in if length parts \<ge> 2 \<and> startswith (parts ! 1) today_str
         then insert (parts ! 0) logged else logged)"

text \<open>
  \<open>read_limit\<close> is the environment of the read: \<open>None\<close> when the whole file is read,
  \<open>Some k\<close> when reading raises after \<open>k\<close> lines; the exception is caught and printed,
  the names added so far stay.
\<close>

definition load_today_log ::
  "string \<Rightarrow> nat option \<Rightarrow> string option \<Rightarrow> 'e FaceDataManager \<Rightarrow> 'e FaceDataManager" where
  "load_today_log today_str read_limit ledger dm =
     (let dm0 = dm\<lparr>logged_people := {}\<rparr>
      in case ledger of
           None \<Rightarrow> dm0
         | Some text \<Rightarrow>
             (case (case read_limit of None \<Rightarrow> readlines text | Some k \<Rightarrow> take k (readlines text)) of
                [] \<Rightarrow> dm0
              | header # rows \<Rightarrow> dm0\<lparr>logged_people := foldl (log_line today_str) {} rows\<rparr>))"

text \<open>
  The faults of the ledger write. \<open>OpenFails\<close>: \<open>open\<close> raises and the file is as
  before. \<open>WriteFails k\<close>: the file is opened (and so created when it was missing), the
  text written is buffered, and only its first \<open>k\<close> characters reach the file before the
  write, the flush or the close raises; the file can be left with part of a row.
\<close>

datatype io_fault = NoFault | OpenFails | WriteFails nat

definition header_row :: string where
  "header_row = ''Name,Timestamp'' @ [NL]"

definition ledger_row :: "string \<Rightarrow> string \<Rightarrow> string" where
  "ledger_row name ts = name @ '','' @ ts @ [NL]"

text \<open>
  \<open>ts\<close> is the formatted reading of the clock, \<open>fault\<close> what the file system does to
  this call. The result is the return value or the exception, with the manager and the file
  as the call leaves them.
\<close>

definition mark_attendance ::
  "string \<Rightarrow> string \<Rightarrow> io_fault \<Rightarrow> 'e FaceDataManager \<times> string option \<Rightarrow>
   (error + bool) \<times> 'e FaceDataManager \<times> string option" where
  "mark_attendance name ts fault st =
     (case st of (dm, ledger) \<Rightarrow>
        if name \<notin> logged_people dm then
          (let written = (case ledger of None \<Rightarrow> header_row | Some _ \<Rightarrow> []) @ ledger_row name ts;
               opened = (case ledger of None \<Rightarrow> [] | Some text \<Rightarrow> text)
           in case fault of
                OpenFails \<Rightarrow> (Inl OSError, dm, ledger)
              | WriteFails k \<Rightarrow> (Inl OSError, dm, Some (opened @ take k written))
              | NoFault \<Rightarrow>
                  (Inr True, dm\<lparr>logged_people := insert name (logged_people dm)\<rparr>,
                   Some (opened @ written)))
        else (Inr False, dm, ledger))"


section \<open>Recognition\<close>

definition RECOGNITION_TOLERANCE :: real where
  "RECOGNITION_TOLERANCE = 6 / 10"

definition TOTAL_PHOTOS_REQUIRED :: nat where
  "TOTAL_PHOTOS_REQUIRED = 3"

text \<open>
  The two calls into the \<open>face_recognition\<close> library, over the distance \<open>metric\<close> of two
  encodings (the Euclidean norm of their difference): \<open>face_distance\<close> gives the distance
  of the probe to every known encoding, \<open>compare_faces\<close> is
  \<open>list(face_distance(known, probe) <= tolerance)\<close>.
\<close>

definition face_distance :: "('e \<Rightarrow> 'e \<Rightarrow> real) \<Rightarrow> 'e list \<Rightarrow> 'e \<Rightarrow> real list" where
  "face_distance metric known enc = map (\<lambda>k. metric k enc) known"

definition compare_faces :: "('e \<Rightarrow> 'e \<Rightarrow> real) \<Rightarrow> 'e list \<Rightarrow> 'e \<Rightarrow> real \<Rightarrow> bool list" where
  "compare_faces metric known enc tolerance = map (\<lambda>d. d \<le> tolerance) (face_distance metric known enc)"

text \<open>\<open>np.argmin\<close>: the first index of the least value; it raises on an empty array.\<close>

fun argmin :: "real list \<Rightarrow> nat option" where
  "argmin [] = None"
| "argmin (d # ds) =
     (case argmin ds of
        None \<Rightarrow> Some 0
      | Some j \<Rightarrow> if d \<le> ds ! j then Some 0 else Some (Suc j))"

text \<open>
  The body of the loop over the encodings of one frame, for one encoding: the name to draw,
  or the exception that leaves the loop.
\<close>

definition identify ::
  "('e \<Rightarrow> 'e \<Rightarrow> real) \<Rightarrow> 'e \<Rightarrow> string \<Rightarrow> io_fault \<Rightarrow> 'e FaceDataManager \<times> string option \<Rightarrow>
   (error + string) \<times> 'e FaceDataManager \<times> string option" where
  "identify metric enc ts fault st =
     (case st of (dm, ledger) \<Rightarrow>
        if known_encodings dm \<noteq> [] then
          (let matches = compare_faces metric (known_encodings dm) enc RECOGNITION_TOLERANCE;
               distances = face_distance metric (known_encodings dm) enc
           in if length distances > 0 then
                (case argmin distances of
                   None \<Rightarrow> (Inl ValueError, dm, ledger)
                 | Some best_idx \<Rightarrow>
                     if \<not> best_idx < length matches then (Inl IndexError, dm, ledger)
                     else if matches ! best_idx then
                       (if \<not> best_idx < length (known_names dm) then (Inl IndexError, dm, ledger)
                        else (case mark_attendance (known_names dm ! best_idx) ts fault (dm, ledger) of
                                (Inl e, st') \<Rightarrow> (Inl e, st')
                              | (Inr _, st') \<Rightarrow> (Inr (known_names dm ! best_idx), st')))
                     else (Inr ''Unknown'', dm, ledger))
              else (Inr ''Unknown'', dm, ledger))
        else (Inr ''Unknown'', dm, ledger))"

text \<open>
  One detected face: its encoding, with the clock reading and the file-system fault that
  a ledger write for it meets.
\<close>

type_synonym 'e detection = "'e \<times> string \<times> io_fault"

fun identify_all ::
  "('e \<Rightarrow> 'e \<Rightarrow> real) \<Rightarrow> 'e detection list \<Rightarrow> string list \<Rightarrow> 'e FaceDataManager \<times> string option \<Rightarrow>
   (error + string list) \<times> 'e FaceDataManager \<times> string option" where
  "identify_all metric [] names st = (Inr names, st)"
| "identify_all metric ((enc, ts, fault) # rest) names st =
     (case identify metric enc ts fault st of
        (Inl e, st') \<Rightarrow> (Inl e, st')
      | (Inr name, st') \<Rightarrow> identify_all metric rest (names @ [name]) st')"

section \<open>The frame queue\<close>

text \<open>
  \<open>queue.Queue(maxsize=1)\<close> as the list of its items, oldest first. \<open>put\<close> on a full
  queue waits for a consumer: \<open>None\<close> is the call that does not return.
\<close>

definition maxsize :: nat where
  "maxsize = 1"

definition full :: "'a list \<Rightarrow> bool" where
  "full q = (0 < maxsize \<and> maxsize \<le> length q)"

definition put :: "'a list \<Rightarrow> 'a \<Rightarrow> 'a list option" where
  "put q item = (if full q then None else Some (q @ [item]))"

text \<open>\<open>get_nowait\<close>: \<open>None\<close> is the exception \<open>queue.Empty\<close>.\<close>

definition get_nowait :: "'a list \<Rightarrow> ('a \<times> 'a list) option" where
  "get_nowait q = (case q of [] \<Rightarrow> None | item # rest \<Rightarrow> Some (item, rest))"

text \<open>The publishing step at the end of the worker's loop body.\<close>

definition publish :: "'a \<Rightarrow> 'a list \<Rightarrow> 'a list option" where
  "publish item q = (if \<not> full q then put q item else Some q)"

text \<open>
  The channel alone, under a sequence of events: the worker publishes a frame, or the
  consumer polls with \<open>get_nowait\<close> (an empty queue is passed over).
\<close>

datatype 'a channel_event = Publish 'a | Poll

fun channel :: "'a channel_event list \<Rightarrow> 'a list \<Rightarrow> 'a list option" where
  "channel [] q = Some q"
| "channel (Publish item # evs) q =
     (case publish item q of None \<Rightarrow> None | Some q' \<Rightarrow> channel evs q')"
| "channel (Poll # evs) q =
     (case get_nowait q of None \<Rightarrow> channel evs q | Some (_, q') \<Rightarrow> channel evs q')"

section \<open>The camera thread\<close>

text \<open>
  A \<open>cv2.VideoCapture\<close> object: the device index it was made for and whether it holds
  the device open.
\<close>

record capture =
  index :: nat
  isOpened :: bool

datatype outcome = Returned | Raised error

text \<open>
  The state the worker reads and writes: its own fields, the shared data manager, the
  ledger file, the frame queue and the lines printed. \<open>'f\<close> is the type of a frame; a
  published frame carries the names drawn on it.
\<close>

record ('f, 'e) CameraThread =
  data_manager :: "'e FaceDataManager"
  ledger_file :: "string option"
  frame_queue :: "('f \<times> string list) list"
  running :: bool
  cap :: "capture option"
  latest_frame :: "'f option"
  printed :: "string list"

definition release :: "('f, 'e) CameraThread \<Rightarrow> ('f, 'e) CameraThread" where
  "release w = (case cap w of None \<Rightarrow> w | Some c \<Rightarrow> w\<lparr>cap := Some (c\<lparr>isOpened := False\<rparr>)\<rparr>)"

text \<open>
  \<open>init_camera\<close>; \<open>opens idx\<close> tells whether the device with that index can be
  opened. \<open>try_indices\<close> is its loop over the indices.
\<close>

fun try_indices :: "(nat \<Rightarrow> bool) \<Rightarrow> nat list \<Rightarrow> ('f, 'e) CameraThread \<Rightarrow> bool \<times> ('f, 'e) CameraThread" where
  "try_indices opens [] w =
     (False, w\<lparr>printed := printed w @ [''FATAL: No camera detected''], running := False\<rparr>)"
| "try_indices opens (idx # rest) w =
     (if opens idx
      then (True, w\<lparr>cap := Some \<lparr>index = idx, isOpened = True\<rparr>,
                     printed := printed w @ [''INFO: Camera '' @ str_nat idx @ '' opened'']\<rparr>)
      else try_indices opens rest (w\<lparr>cap := Some \<lparr>index = idx, isOpened = False\<rparr>\<rparr>))"

definition init_camera :: "(nat \<Rightarrow> bool) \<Rightarrow> ('f, 'e) CameraThread \<Rightarrow> bool \<times> ('f, 'e) CameraThread" where
  "init_camera opens w = try_indices opens [0, 1] (release w)"

text \<open>
  What the environment does during one pass of the loop: whether \<open>stop\<close> was called
  before the loop test, whether the consumer took the queued frame, what \<open>cap.read\<close>
  returns (\<open>None\<close> when \<open>ret\<close> is false) and the faces found in the frame.
\<close>

record ('f, 'e) tick =
  stop_called :: bool
  consumed :: bool
  grabbed :: "'f option"
  detections :: "'e detection list"

text \<open>
  What the other threads did to the shared state since the last pass: \<open>stop\<close> clears
  the flag, the consumer's \<open>get_nowait\<close> takes the queued frame (an empty queue is
  passed over).
\<close>

definition observe :: "('f, 'e) tick \<Rightarrow> ('f, 'e) CameraThread \<Rightarrow> ('f, 'e) CameraThread" where
  "observe t w =
     (let w1 = (if stop_called t then w\<lparr>running := False\<rparr> else w)
      in if consumed t
         then (case get_nowait (frame_queue w1) of
                 None \<Rightarrow> w1
               | Some (_, rest) \<Rightarrow> w1\<lparr>frame_queue := rest\<rparr>)
         else w1)"

text \<open>
  The loop body on a frame that was read: keep the frame, name the faces, publish. The
  result is \<open>None\<close> when \<open>put\<close> waits, and otherwise the exception that leaves the
  loop, if any, with the state.
\<close>

definition process_frame ::
  "('e \<Rightarrow> 'e \<Rightarrow> real) \<Rightarrow> 'f \<Rightarrow> 'e detection list \<Rightarrow> ('f, 'e) CameraThread \<Rightarrow>
   (error option \<times> ('f, 'e) CameraThread) option" where
  "process_frame metric frame dets w =
     (let w1 = w\<lparr>latest_frame := Some frame\<rparr>
      in case identify_all metric dets [] (data_manager w1, ledger_file w1) of
           (Inl e, dm, ledger) \<Rightarrow> Some (Some e, w1\<lparr>data_manager := dm, ledger_file := ledger\<rparr>)
         | (Inr names, dm, ledger) \<Rightarrow>
             (case publish (frame, names) (frame_queue w1) of
                None \<Rightarrow> None
              | Some q \<Rightarrow>
                  Some (None, w1\<lparr>data_manager := dm, ledger_file := ledger, frame_queue := q\<rparr>)))"

text \<open>
  The \<open>while self.running\<close> loop and the release after it. The result is \<open>None\<close> when
  the worker is still in the loop after the given ticks, or waits in \<open>put\<close>.
\<close>

fun run_loop ::
  "('e \<Rightarrow> 'e \<Rightarrow> real) \<Rightarrow> ('f, 'e) tick list \<Rightarrow> ('f, 'e) CameraThread \<Rightarrow>
   (outcome \<times> ('f, 'e) CameraThread) option" where
  "run_loop metric [] w = (if running w then None else Some (Returned, release w))"
| "run_loop metric (t # ticks) w =
     (if \<not> running (observe t w) then Some (Returned, release (observe t w))
      else (case grabbed t of
              None \<Rightarrow> run_loop metric ticks (observe t w)
            | Some frame \<Rightarrow>
                (case process_frame metric frame (detections t) (observe t w) of
                   None \<Rightarrow> None
                 | Some (Some e, w') \<Rightarrow> Some (Raised e, w')
                 | Some (None, w') \<Rightarrow> run_loop metric ticks w')))"

definition run ::
  "(nat \<Rightarrow> bool) \<Rightarrow> ('e \<Rightarrow> 'e \<Rightarrow> real) \<Rightarrow> ('f, 'e) tick list \<Rightarrow> ('f, 'e) CameraThread \<Rightarrow>
   (outcome \<times> ('f, 'e) CameraThread) option" where
  "run opens metric ticks w =
     (case init_camera opens w of
        (False, w') \<Rightarrow> Some (Returned, w')
      | (True, w') \<Rightarrow> run_loop metric ticks w')"

text \<open>\<open>CameraThread.__init__\<close> over a data manager, a ledger file and a queue.\<close>

definition CameraThread_init ::
  "'e FaceDataManager \<Rightarrow> string option \<Rightarrow> ('f \<times> string list) list \<Rightarrow> ('f, 'e) CameraThread" where
  "CameraThread_init dm ledger q =
     \<lparr>data_manager = dm, ledger_file = ledger, frame_queue = q, running = True,
      cap = None, latest_frame = None, printed = []\<rparr>"

section \<open>The registration window\<close>

record 'f RegistrationWindow =
  captured_frames :: "'f list"
  capture_count :: nat

datatype capture_result = InputError | CameraError | Captured | Processing string

text \<open>
  \<open>process_capture\<close> over the text of the entry and the snapshot the camera thread
  gives (\<open>None\<close> when it has no frame yet). \<open>Processing name\<close> is the branch that
  schedules \<open>save_all_frames(name)\<close>.
\<close>

definition process_capture ::
  "string \<Rightarrow> 'f option \<Rightarrow> 'f RegistrationWindow \<Rightarrow> capture_result \<times> 'f RegistrationWindow" where
  "process_capture entry snap rw =
     (let name = strip entry
      in if name = [] \<or> CHR '' '' \<in> set name \<or> \<not> isalpha (hd name) then (InputError, rw)
         else (case snap of
                 None \<Rightarrow> (CameraError, rw)
               | Some frame \<Rightarrow>
                   (let rw' = rw\<lparr>captured_frames := captured_frames rw @ [frame],
                                  capture_count := capture_count rw + 1\<rparr>
                    in if capture_count rw' < TOTAL_PHOTOS_REQUIRED then (Captured, rw')
                       else (Processing name, rw'))))"

section \<open>The invariant of the gallery\<close>

text \<open>The encodings and the names are parallel lists.\<close>

definition lockstep :: "'e FaceDataManager \<Rightarrow> bool" where
  "lockstep dm = (length (known_encodings dm) = length (known_names dm))"

section \<open>Properties of the gallery loader\<close>

lemma replace_removes: "a \<noteq> b \<Longrightarrow> a \<notin> set (replace a b s)"
  by (auto simp: replace_def)

text \<open>
  The numeric-suffix branch of the name cleanup is never taken: once the underscores are
  replaced, no underscore is left for its test to find.
\<close>

lemma clean_name_keeps_suffix:
  "clean_name fname = replace (CHR ''_'') (CHR '' '') (fst (splitext fname))"
  by (simp add: clean_name_def Let_def replace_removes)

text \<open>
  Claim C1. The loader is meant to give the photos \<open>Jane_Doe_1.jpg\<close> and
  \<open>Jane_Doe_2.jpg\<close> the one display name \<open>Jane Doe\<close>. On this directory it loads one
  encoding per photo, but under two names that keep their numbers.
\<close>

theorem load_known_faces_numbered_photos:
  "load_known_faces (\<lambda>img. Some [img])
     (Some [(''Jane_Doe_1.jpg'', 1::nat), (''Jane_Doe_2.jpg'', 2)])
     \<lparr>known_encodings = [], known_names = [], logged_people = {}\<rparr> =
   (\<lparr>known_encodings = [1, 2], known_names = [''Jane Doe 1'', ''Jane Doe 2''], logged_people = {}\<rparr>,
    Some [(''Jane_Doe_1.jpg'', 1), (''Jane_Doe_2.jpg'', 2)])"
  by (simp add: load_known_faces_def clean_name_def splitext_def replace_def is_image_file_def
        endswith_def lower_def lower_char_def char_of_def bit_Suc_0_iff)

section \<open>Properties of the frame queue\<close>

lemma publish_returns: "\<exists>q'. publish item q = Some q'"
  by (simp add: publish_def put_def)

lemma publish_full: "full q \<Longrightarrow> publish item q = Some q"
  by (simp add: publish_def)

lemma publish_empty: "publish item [] = Some [item]"
  by (simp add: publish_def put_def full_def maxsize_def)

lemma channel_returns: "\<exists>q'. channel evs q = Some q'"
proof (induction evs arbitrary: q)
  case Nil
  show ?case by simp
next
  case (Cons ev evs)
  show ?case
  proof (cases ev)
    case (Publish item)
    have "\<exists>q1. publish item q = Some q1" by (rule publish_returns)
    then obtain q1 where "publish item q = Some q1" ..
    with Publish Cons.IH [of q1] show ?thesis by simp
  next
    case Poll
    with Cons.IH show ?thesis by (cases q) (simp_all add: get_nowait_def)
  qed
qed

lemma channel_full_publishes: "full q \<Longrightarrow> channel (map Publish frames) q = Some q"
  by (induction frames) (simp_all add: publish_full)

text \<open>
  Claim C2, as stated, fails: a publish into the full slot does not replace the frame
  waiting there. After publishing frame 1 and then frame 2 with no poll in between, the
  slot holds frame 1.
\<close>

theorem channel_keeps_first_frame_counterexample:
  "channel [Publish (1::nat), Publish 2] [] = Some [1] \<and>
   channel [Publish (1::nat), Publish 2] [] \<noteq> Some [2]"
  by (simp add: publish_def put_def full_def maxsize_def)

text \<open>
  Claim C2, amended. Under every sequence of publishes and polls, from every queue, no
  publish waits: the sequence runs to its end. A publish into a full queue leaves the
  queue as it is (the new frame is dropped), so with a consumer that never polls the slot
  keeps the first frame published into the empty queue.
\<close>

theorem channel_never_blocks:
  "(\<exists>q'. channel evs q = Some q') \<and>
   (full q \<longrightarrow> channel (map Publish frames) q = Some q) \<and>
   channel (map Publish (f # frames)) [] = Some [f]"
proof -
  have "full [f]" by (simp add: full_def maxsize_def)
  then have "channel (map Publish frames) [f] = Some [f]" by (rule channel_full_publishes)
  then have "channel (map Publish (f # frames)) [] = Some [f]" by (simp add: publish_empty)
  then show ?thesis using channel_returns channel_full_publishes by blast
qed

theorem channel_never_blocks_witness:
  "full [1::nat] \<and> channel (map Publish [2, 3]) [1::nat] = Some [1] \<and>
   (\<exists>q'. channel [Publish 1, Poll, Publish (2::nat)] [] = Some q')"
  using channel_never_blocks [of "[Publish 1, Poll, Publish (2::nat)]" "[]" "[]" 1]
        channel_never_blocks [of "[]" "[1::nat]" "[2, 3]" 1]
  by (simp add: full_def maxsize_def)

section \<open>Properties of the attendance ledger\<close>

lemma mark_attendance_logged:
  "name \<in> logged_people dm \<Longrightarrow> mark_attendance name ts fault (dm, ledger) = (Inr False, dm, ledger)"
  by (simp add: mark_attendance_def)

lemma mark_attendance_new:
  "name \<notin> logged_people dm \<Longrightarrow>
   mark_attendance name ts NoFault (dm, ledger) =
     (Inr True, dm\<lparr>logged_people := insert name (logged_people dm)\<rparr>,
      Some ((case ledger of None \<Rightarrow> ''Name,Timestamp'' @ [NL] | Some text \<Rightarrow> text) @
            name @ '','' @ ts @ [NL]))"
  by (simp add: mark_attendance_def header_row_def ledger_row_def split: option.splits)

text \<open>
  Claim C3. A call for a name that is already in the logged-today set returns \<open>False\<close>
  and leaves the manager and the file as they are, whatever the file system would do (no
  file operation is reached). Hence, for a name not yet logged, a first call that succeeds
  puts the name into the set and writes the one row \<open>name,ts\<close> with its newline after
  the text of the file (after the header line, when it makes the file), and a second call
  for the same name, at any later clock reading, returns \<open>False\<close> and leaves that file
  as it is.
\<close>

theorem mark_attendance_idempotent:
  "(name \<in> logged_people dm \<longrightarrow>
      mark_attendance name ts fault (dm, ledger) = (Inr False, dm, ledger)) \<and>
   (name \<notin> logged_people dm \<longrightarrow>
      mark_attendance name ts NoFault (dm, ledger) =
        (Inr True, dm\<lparr>logged_people := insert name (logged_people dm)\<rparr>,
         Some ((case ledger of None \<Rightarrow> ''Name,Timestamp'' @ [NL] | Some text \<Rightarrow> text) @
               name @ '','' @ ts @ [NL])) \<and>
      mark_attendance name ts' fault
        (dm\<lparr>logged_people := insert name (logged_people dm)\<rparr>,
         Some ((case ledger of None \<Rightarrow> ''Name,Timestamp'' @ [NL] | Some text \<Rightarrow> text) @
               name @ '','' @ ts @ [NL])) =
        (Inr False, dm\<lparr>logged_people := insert name (logged_people dm)\<rparr>,
         Some ((case ledger of None \<Rightarrow> ''Name,Timestamp'' @ [NL] | Some text \<Rightarrow> text) @
               name @ '','' @ ts @ [NL])))"
  by (simp add: mark_attendance_logged mark_attendance_new)

theorem mark_attendance_idempotent_witness:
  "''Bob'' \<in> logged_people \<lparr>known_encodings = ([]::nat list), known_names = [], logged_people = {''Bob''}\<rparr> \<and>
   mark_attendance ''Bob'' ''2026-01-05 09:00:00'' OpenFails
     (\<lparr>known_encodings = ([]::nat list), known_names = [], logged_people = {''Bob''}\<rparr>,
      Some (''Name,Timestamp'' @ [NL])) =
     (Inr False, \<lparr>known_encodings = [], known_names = [], logged_people = {''Bob''}\<rparr>,
      Some (''Name,Timestamp'' @ [NL])) \<and>
   ''Ann'' \<notin> logged_people \<lparr>known_encodings = ([]::nat list), known_names = [], logged_people = {''Bob''}\<rparr> \<and>
   mark_attendance ''Ann'' ''2026-01-05 09:00:00'' NoFault
     (\<lparr>known_encodings = ([]::nat list), known_names = [], logged_people = {''Bob''}\<rparr>,
      Some (''Name,Timestamp'' @ [NL])) =
     (Inr True, \<lparr>known_encodings = [], known_names = [], logged_people = {''Ann'', ''Bob''}\<rparr>,
      Some (''Name,Timestamp'' @ [NL] @ ''Ann,2026-01-05 09:00:00'' @ [NL])) \<and>
   mark_attendance ''Ann'' ''2026-01-05 09:00:01'' OpenFails
     (\<lparr>known_encodings = ([]::nat list), known_names = [], logged_people = {''Ann'', ''Bob''}\<rparr>,
      Some (''Name,Timestamp'' @ [NL] @ ''Ann,2026-01-05 09:00:00'' @ [NL])) =
     (Inr False, \<lparr>known_encodings = [], known_names = [], logged_people = {''Ann'', ''Bob''}\<rparr>,
      Some (''Name,Timestamp'' @ [NL] @ ''Ann,2026-01-05 09:00:00'' @ [NL]))"
  using mark_attendance_idempotent [of "''Bob''"
          "\<lparr>known_encodings = ([]::nat list), known_names = [], logged_people = {''Bob''}\<rparr>"
          "''2026-01-05 09:00:00''" OpenFails "Some (''Name,Timestamp'' @ [NL])" "''2026-01-05 09:00:01''"]
        mark_attendance_idempotent [of "''Ann''"
          "\<lparr>known_encodings = ([]::nat list), known_names = [], logged_people = {''Bob''}\<rparr>"
          "''2026-01-05 09:00:00''" OpenFails "Some (''Name,Timestamp'' @ [NL])" "''2026-01-05 09:00:01''"]
  by simp

lemma readlines_line: "NL \<notin> set s \<Longrightarrow> readlines (s @ NL # rest) = (s @ [NL]) # readlines rest"
  by (induction s) auto

text \<open>
  Claim C4. With no ledger file, \<open>load_today_log\<close> leaves the logged-today set empty and
  has no failing branch; the first \<open>mark_attendance\<close> for Alice then returns \<open>True\<close>,
  puts Alice into the set and creates the file with the header line and one line for Alice
  with the clock reading.
\<close>

theorem first_mark_creates_ledger:
  "load_today_log today_str read_limit None dm = dm\<lparr>logged_people := {}\<rparr> \<and>
   mark_attendance ''Alice'' ts NoFault (load_today_log today_str read_limit None dm, None) =
     (Inr True, dm\<lparr>logged_people := {''Alice''}\<rparr>,
      Some (''Name,Timestamp'' @ [NL] @ ''Alice,'' @ ts @ [NL])) \<and>
   (NL \<notin> set ts \<longrightarrow>
      readlines (''Name,Timestamp'' @ [NL] @ ''Alice,'' @ ts @ [NL]) =
        [''Name,Timestamp'' @ [NL], ''Alice,'' @ ts @ [NL]])"
proof -
  have a: "load_today_log today_str read_limit None dm = dm\<lparr>logged_people := {}\<rparr>"
    by (simp add: load_today_log_def)
  have b: "mark_attendance ''Alice'' ts NoFault (dm\<lparr>logged_people := {}\<rparr>, None) =
     (Inr True, dm\<lparr>logged_people := {''Alice''}\<rparr>,
      Some (''Name,Timestamp'' @ [NL] @ ''Alice,'' @ ts @ [NL]))"
    by (simp add: mark_attendance_def header_row_def ledger_row_def)
  have c: "readlines (''Name,Timestamp'' @ [NL] @ ''Alice,'' @ ts @ [NL]) =
        [''Name,Timestamp'' @ [NL], ''Alice,'' @ ts @ [NL]]" if "NL \<notin> set ts"
  proof -
    have n1: "NL \<notin> set ''Name,Timestamp''" by (simp add: NL_def)
    have n2: "NL \<notin> set (''Alice,'' @ ts)" using that by (simp add: NL_def)
    have "readlines (''Name,Timestamp'' @ NL # ((''Alice,'' @ ts) @ NL # [])) =
          (''Name,Timestamp'' @ [NL]) # ((''Alice,'' @ ts) @ [NL]) # readlines []"
      using readlines_line [OF n1] readlines_line [OF n2] by simp
    then show ?thesis by simp
  qed
  from a b c show ?thesis by simp
qed

theorem first_mark_creates_ledger_witness:
  "NL \<notin> set ''2026-01-05 09:00:00'' \<and>
   load_today_log ''2026-01-05'' None None
     \<lparr>known_encodings = ([]::nat list), known_names = [], logged_people = {''Zed''}\<rparr> =
     \<lparr>known_encodings = [], known_names = [], logged_people = {}\<rparr> \<and>
   readlines (''Name,Timestamp'' @ [NL] @ ''Alice,'' @ ''2026-01-05 09:00:00'' @ [NL]) =
     [''Name,Timestamp'' @ [NL], ''Alice,'' @ ''2026-01-05 09:00:00'' @ [NL]]"
  using first_mark_creates_ledger [of "''2026-01-05''" None
          "\<lparr>known_encodings = ([]::nat list), known_names = [], logged_people = {''Zed''}\<rparr>"
          "''2026-01-05 09:00:00''"]
  by (simp add: NL_def)



section \<open>Properties of the gallery invariant\<close>





lemma mark_attendance_lists:
  "mark_attendance name ts fault (dm, ledger) = (r, dm', ledger') \<Longrightarrow>
   known_encodings dm' = known_encodings dm \<and> known_names dm' = known_names dm"
  by (cases fault; cases ledger) (auto simp: mark_attendance_def Let_def split: if_splits)

text \<open>\<open>argmin\<close> gives the first index of a least element.\<close>

lemma argmin_first_least:
  "ds \<noteq> [] \<Longrightarrow>
   \<exists>i. argmin ds = Some i \<and> i < length ds \<and> (\<forall>j < length ds. ds ! i \<le> ds ! j) \<and> (\<forall>j < i. ds ! i < ds ! j)"
proof (induction ds)
  case Nil
  then show ?case by simp
next
  case (Cons d ds)
  show ?case
  proof (cases ds)
    case Nil
    then show ?thesis by simp
  next
    case (Cons x xs)
    then have "ds \<noteq> []" by simp
    with Cons.IH obtain i where i: "argmin ds = Some i" "i < length ds"
      "\<forall>j < length ds. ds ! i \<le> ds ! j" "\<forall>j < i. ds ! i < ds ! j" by blast
    show ?thesis
    proof (cases "d \<le> ds ! i")
      case True
      have "\<forall>j < length (d # ds). (d # ds) ! 0 \<le> (d # ds) ! j"
      proof (intro allI impI)
        fix j assume "j < length (d # ds)"
        then show "(d # ds) ! 0 \<le> (d # ds) ! j"
          using True i(3) by (cases j) (auto intro: order_trans)
      qed
      with True i(1) show ?thesis by simp
    next
      case False
      have a: "\<forall>j < length (d # ds). (d # ds) ! Suc i \<le> (d # ds) ! j"
      proof (intro allI impI)
        fix j assume "j < length (d # ds)"
        then show "(d # ds) ! Suc i \<le> (d # ds) ! j"
          using False i(3) by (cases j) auto
      qed
      have b: "\<forall>j < Suc i. (d # ds) ! Suc i < (d # ds) ! j"
      proof (intro allI impI)
        fix j assume "j < Suc i"
        then show "(d # ds) ! Suc i < (d # ds) ! j"
          using False i(4) by (cases j) auto
      qed
      from False i(1) i(2) a b show ?thesis by simp
    qed
  qed
qed


section \<open>Properties of the matching policy\<close>

lemma identify_empty_gallery:
  "known_encodings dm = [] \<Longrightarrow> identify metric enc ts fault (dm, ledger) = (Inr ''Unknown'', dm, ledger)"
  by (simp add: identify_def)

lemma identify_all_empty_gallery:
  "known_encodings (fst st) = [] \<Longrightarrow>
   identify_all metric dets names st = (Inr (names @ replicate (length dets) ''Unknown''), st)"
proof (induction metric dets names st rule: identify_all.induct)
  case (1 metric names st)
  then show ?case by simp
next
  case (2 metric enc ts fault rest names st)
  obtain dm ledger where st: "st = (dm, ledger)" by (cases st)
  with "2.prems" have "identify metric enc ts fault st = (Inr ''Unknown'', st)"
    by (simp add: identify_empty_gallery)
  with "2.IH" [of "Inr ''Unknown''" st "''Unknown''"] "2.prems" show ?case
    by (simp add: replicate_app_Cons_same)
qed

text \<open>
  Claim C5, as stated, fails at the threshold: a nearest neighbour whose distance equals
  the tolerance is not below it, and is reported as a match. Here the gallery holds one
  encoding at distance 0.6 of the probe.
\<close>

theorem identify_matches_at_tolerance_counterexample:
  "fst (identify (\<lambda>a b. \<bar>a - b\<bar>) 0 ''2026-01-05 09:00:00'' NoFault
          (\<lparr>known_encodings = [6 / 10], known_names = [''Bob''], logged_people = {}\<rparr>, None)) =
     Inr ''Bob'' \<and>
   face_distance (\<lambda>a b. \<bar>a - b\<bar>) [6 / 10] 0 = [RECOGNITION_TOLERANCE] \<and>
   \<not> (RECOGNITION_TOLERANCE < RECOGNITION_TOLERANCE)"
  by (simp add: identify_def compare_faces_def face_distance_def RECOGNITION_TOLERANCE_def
        mark_attendance_def)

lemma identify_nearest:
  assumes "lockstep dm" and "known_encodings dm \<noteq> []"
    and "ds = face_distance metric (known_encodings dm) enc"
  shows "\<exists>i < length ds.
           length ds = length (known_encodings dm) \<and>
           (\<forall>j < length ds. ds ! i \<le> ds ! j) \<and> (\<forall>j < i. ds ! i < ds ! j) \<and>
           identify metric enc ts fault (dm, ledger) =
             (if ds ! i \<le> RECOGNITION_TOLERANCE
              then (case mark_attendance (known_names dm ! i) ts fault (dm, ledger) of
                      (Inl e, st') \<Rightarrow> (Inl e, st')
                    | (Inr _, st') \<Rightarrow> (Inr (known_names dm ! i), st'))
              else (Inr ''Unknown'', dm, ledger))"
proof -
  from assms have ne: "ds \<noteq> []" and len: "length ds = length (known_encodings dm)"
    by (simp_all add: face_distance_def)
  from argmin_first_least [OF ne] obtain i where i: "argmin ds = Some i" "i < length ds"
    "\<forall>j < length ds. ds ! i \<le> ds ! j" "\<forall>j < i. ds ! i < ds ! j" by blast
  from i(2) len assms(1) have names: "i < length (known_names dm)"
    by (simp add: lockstep_def)
  have m: "compare_faces metric (known_encodings dm) enc RECOGNITION_TOLERANCE ! i =
           (ds ! i \<le> RECOGNITION_TOLERANCE)"
    using i(2) assms(3) by (simp add: compare_faces_def)
  have lm: "length (compare_faces metric (known_encodings dm) enc RECOGNITION_TOLERANCE) = length ds"
    using assms(3) by (simp add: compare_faces_def)
  have "identify metric enc ts fault (dm, ledger) =
             (if ds ! i \<le> RECOGNITION_TOLERANCE
              then (case mark_attendance (known_names dm ! i) ts fault (dm, ledger) of
                      (Inl e, st') \<Rightarrow> (Inl e, st')
                    | (Inr _, st') \<Rightarrow> (Inr (known_names dm ! i), st'))
              else (Inr ''Unknown'', dm, ledger))"
    using assms(2) ne i(1) i(2) names m lm assms(3) [symmetric]
    by (simp add: identify_def Let_def)
  with i len show ?thesis by blast
qed

text \<open>
  Claim C5, amended. The distance of the probe to every known encoding is computed; the
  nearest neighbour is the first encoding of least distance; the face is reported under its
  name, and its attendance marked, exactly when that distance is at most the tolerance, and
  is reported as \<open>Unknown\<close> otherwise, with nothing marked. With an empty gallery every
  detected face is reported as \<open>Unknown\<close> and the manager and the ledger stay as they are.
\<close>

theorem matching_policy:
  "(known_encodings dm = [] \<longrightarrow>
      identify_all metric dets [] (dm, ledger) =
        (Inr (replicate (length dets) ''Unknown''), dm, ledger)) \<and>
   (lockstep dm \<and> known_encodings dm \<noteq> [] \<longrightarrow>
      (\<exists>i < length (known_encodings dm).
         (\<forall>j < length (known_encodings dm).
            metric (known_encodings dm ! i) enc \<le> metric (known_encodings dm ! j) enc) \<and>
         (\<forall>j < i. metric (known_encodings dm ! i) enc < metric (known_encodings dm ! j) enc) \<and>
         identify metric enc ts fault (dm, ledger) =
           (if metric (known_encodings dm ! i) enc \<le> RECOGNITION_TOLERANCE
            then (case mark_attendance (known_names dm ! i) ts fault (dm, ledger) of
                    (Inl e, st') \<Rightarrow> (Inl e, st')
                  | (Inr _, st') \<Rightarrow> (Inr (known_names dm ! i), st'))
            else (Inr ''Unknown'', dm, ledger))))"
proof (intro conjI impI)
  assume "known_encodings dm = []"
  then show "identify_all metric dets [] (dm, ledger) =
        (Inr (replicate (length dets) ''Unknown''), dm, ledger)"
    using identify_all_empty_gallery [of "(dm, ledger)" metric dets "[]"] by simp
next
  assume h: "lockstep dm \<and> known_encodings dm \<noteq> []"
  define ds where "ds = face_distance metric (known_encodings dm) enc"
  have nth: "ds ! j = metric (known_encodings dm ! j) enc" if "j < length (known_encodings dm)" for j
    using that by (simp add: ds_def face_distance_def)
  from h ds_def have "\<exists>i < length ds.
           length ds = length (known_encodings dm) \<and>
           (\<forall>j < length ds. ds ! i \<le> ds ! j) \<and> (\<forall>j < i. ds ! i < ds ! j) \<and>
           identify metric enc ts fault (dm, ledger) =
             (if ds ! i \<le> RECOGNITION_TOLERANCE
              then (case mark_attendance (known_names dm ! i) ts fault (dm, ledger) of
                      (Inl e, st') \<Rightarrow> (Inl e, st')
                    | (Inr _, st') \<Rightarrow> (Inr (known_names dm ! i), st'))
              else (Inr ''Unknown'', dm, ledger))"
    by (intro identify_nearest) simp_all
  then obtain i where i: "i < length ds" "length ds = length (known_encodings dm)"
    "\<forall>j < length ds. ds ! i \<le> ds ! j" "\<forall>j < i. ds ! i < ds ! j"
    "identify metric enc ts fault (dm, ledger) =
             (if ds ! i \<le> RECOGNITION_TOLERANCE
              then (case mark_attendance (known_names dm ! i) ts fault (dm, ledger) of
                      (Inl e, st') \<Rightarrow> (Inl e, st')
                    | (Inr _, st') \<Rightarrow> (Inr (known_names dm ! i), st'))
              else (Inr ''Unknown'', dm, ledger))" by blast
  from i(1) i(2) have il: "i < length (known_encodings dm)" by simp
  have a: "\<forall>j < length (known_encodings dm).
            metric (known_encodings dm ! i) enc \<le> metric (known_encodings dm ! j) enc"
    using i(2) i(3) il nth by metis
  have b: "\<forall>j < i. metric (known_encodings dm ! i) enc < metric (known_encodings dm ! j) enc"
    using i(4) il nth by (metis less_trans)
  from i(5) il a b nth [OF il]
  show "\<exists>i < length (known_encodings dm).
         (\<forall>j < length (known_encodings dm).
            metric (known_encodings dm ! i) enc \<le> metric (known_encodings dm ! j) enc) \<and>
         (\<forall>j < i. metric (known_encodings dm ! i) enc < metric (known_encodings dm ! j) enc) \<and>
         identify metric enc ts fault (dm, ledger) =
           (if metric (known_encodings dm ! i) enc \<le> RECOGNITION_TOLERANCE
            then (case mark_attendance (known_names dm ! i) ts fault (dm, ledger) of
                    (Inl e, st') \<Rightarrow> (Inl e, st')
                  | (Inr _, st') \<Rightarrow> (Inr (known_names dm ! i), st'))
            else (Inr ''Unknown'', dm, ledger))"
    by (intro exI [of _ i]) simp
qed

theorem matching_policy_witness:
  "lockstep \<lparr>known_encodings = [1::real, 1, 3], known_names = [''Ann'', ''Bob'', ''Cy''], logged_people = {}\<rparr> \<and>
   known_encodings \<lparr>known_encodings = [1::real, 1, 3], known_names = [''Ann'', ''Bob'', ''Cy''], logged_people = {}\<rparr> \<noteq> [] \<and>
   fst (identify (\<lambda>a b. \<bar>a - b\<bar>) (3 / 2) ''2026-01-05 09:00:00'' NoFault
     (\<lparr>known_encodings = [1::real, 1, 3], known_names = [''Ann'', ''Bob'', ''Cy''], logged_people = {}\<rparr>, None)) =
     Inr ''Ann'' \<and>
   identify_all (\<lambda>a b. \<bar>a - b\<bar>) [(1::real, ''2026-01-05 09:00:00'', NoFault)] []
     (\<lparr>known_encodings = [], known_names = [], logged_people = {}\<rparr>, None) =
     (Inr [''Unknown''], \<lparr>known_encodings = [], known_names = [], logged_people = {}\<rparr>, None)"
  using matching_policy [of
          "\<lparr>known_encodings = [1::real, 1, 3], known_names = [''Ann'', ''Bob'', ''Cy''], logged_people = {}\<rparr>"
          "\<lambda>a b. \<bar>a - b\<bar>" "[]" None "3 / 2" "''2026-01-05 09:00:00''" NoFault]
        matching_policy [of "\<lparr>known_encodings = ([]::real list), known_names = [], logged_people = {}\<rparr>"
          "\<lambda>a b. \<bar>a - b\<bar>" "[(1::real, ''2026-01-05 09:00:00'', NoFault)]" None "3 / 2"
          "''2026-01-05 09:00:00''" NoFault]
  by (simp add: lockstep_def identify_def compare_faces_def face_distance_def
        RECOGNITION_TOLERANCE_def mark_attendance_def)


section \<open>The gallery invariant and the loop body\<close>








section \<open>Properties of the registration window\<close>

lemma isalpha_not_isspace: "isalpha c \<Longrightarrow> \<not> isspace c"
  by (auto simp: isalpha_def isspace_def Let_def)

lemma underscore_not_isspace: "\<not> isspace (CHR ''_'')"
  by (simp add: isspace_def)

lemma space_not_isalpha: "\<not> isalpha (CHR '' '')"
  by (simp add: isalpha_def)

lemma dropWhile_none: "\<forall>c \<in> set xs. \<not> P c \<Longrightarrow> dropWhile P xs = xs"
  by (cases xs) simp_all

lemma strip_no_space:
  assumes "\<forall>c \<in> set s. \<not> isspace c"
  shows "strip s = s"
proof -
  have a: "dropWhile isspace s = s"
    using assms by (rule dropWhile_none)
  from assms have "\<forall>c \<in> set (rev s). \<not> isspace c" by simp
  then have b: "dropWhile isspace (rev s) = rev s" by (rule dropWhile_none)
  show ?thesis by (simp add: strip_def a b)
qed

lemma process_capture_rejects:
  "fst (process_capture entry snap rw) = InputError \<longleftrightarrow>
     (strip entry = [] \<or> CHR '' '' \<in> set (strip entry) \<or> \<not> isalpha (hd (strip entry)))"
  by (auto simp: process_capture_def Let_def split: option.splits)

lemma process_capture_rejected_state:
  "fst (process_capture entry snap rw) = InputError \<Longrightarrow> snd (process_capture entry snap rw) = rw"
  by (auto simp: process_capture_def Let_def split: option.splits if_splits)

text \<open>
  Claim C6, as stated, fails: a name with a tab inside contains whitespace, and the
  capture is taken; so it is for an entry with a space in front, which is stripped.
\<close>

theorem process_capture_tab_counterexample:
  "isspace TAB \<and> TAB \<in> set (''A'' @ [TAB] @ ''B'') \<and>
   process_capture (''A'' @ [TAB] @ ''B'') (Some (7::nat)) \<lparr>captured_frames = [], capture_count = 0\<rparr> =
     (Captured, \<lparr>captured_frames = [7], capture_count = 1\<rparr>) \<and>
   isspace (CHR '' '') \<and> \<not> isalpha (hd '' Bob'') \<and>
   process_capture '' Bob'' (Some (7::nat)) \<lparr>captured_frames = [], capture_count = 0\<rparr> =
     (Captured, \<lparr>captured_frames = [7], capture_count = 1\<rparr>)"
  by (simp add: process_capture_def strip_def isspace_def isalpha_def TAB_def TOTAL_PHOTOS_REQUIRED_def)

text \<open>
  Claim C6, amended. The text of the entry is stripped of leading and trailing whitespace
  first. The capture step rejects the name, with the input error and the window unchanged,
  exactly when the stripped name is empty, contains a space character, or does not start
  with a letter. A name of letters and underscores that starts with a letter is not
  changed by the stripping and is not rejected.
\<close>

theorem process_capture_validation:
  "(fst (process_capture entry snap rw) = InputError \<longleftrightarrow>
      (strip entry = [] \<or> CHR '' '' \<in> set (strip entry) \<or> \<not> isalpha (hd (strip entry)))) \<and>
   (fst (process_capture entry snap rw) = InputError \<longrightarrow> snd (process_capture entry snap rw) = rw) \<and>
   (entry \<noteq> [] \<and> isalpha (hd entry) \<and> (\<forall>c \<in> set entry. isalpha c \<or> c = CHR ''_'') \<longrightarrow>
      strip entry = entry \<and> fst (process_capture entry snap rw) \<noteq> InputError)"
proof -
  have c: "strip entry = entry \<and> fst (process_capture entry snap rw) \<noteq> InputError"
    if h: "entry \<noteq> []" "isalpha (hd entry)" "\<forall>c \<in> set entry. isalpha c \<or> c = CHR ''_''"
  proof -
    from h(3) have "\<forall>c \<in> set entry. \<not> isspace c"
      using isalpha_not_isspace underscore_not_isspace by blast
    then have s: "strip entry = entry" by (rule strip_no_space)
    from h(3) have "CHR '' '' \<notin> set entry"
      using space_not_isalpha by auto
    with s h(1) h(2) show ?thesis by (simp add: process_capture_rejects)
  qed
  from c process_capture_rejects process_capture_rejected_state show ?thesis by blast
qed

theorem process_capture_validation_witness:
  "fst (process_capture ''1abc'' (Some (7::nat)) \<lparr>captured_frames = [], capture_count = 0\<rparr>) = InputError \<and>
   snd (process_capture ''1abc'' (Some (7::nat)) \<lparr>captured_frames = [], capture_count = 0\<rparr>) =
     \<lparr>captured_frames = [], capture_count = 0\<rparr> \<and>
   ''Jane_Doe'' \<noteq> [] \<and> isalpha (hd ''Jane_Doe'') \<and> list_all (\<lambda>c. isalpha c \<or> c = CHR ''_'') ''Jane_Doe'' \<and>
   fst (process_capture ''Jane_Doe'' (Some (7::nat)) \<lparr>captured_frames = [], capture_count = 0\<rparr>) \<noteq> InputError"
  using process_capture_validation [of "''1abc''" "Some (7::nat)" "\<lparr>captured_frames = [], capture_count = 0\<rparr>"]
        process_capture_validation [of "''Jane_Doe''" "Some (7::nat)" "\<lparr>captured_frames = [], capture_count = 0\<rparr>"]
  by (simp add: strip_def isspace_def isalpha_def)

section \<open>Properties of the camera thread\<close>

lemma init_camera_no_device:
  "\<not> opens 0 \<Longrightarrow> \<not> opens 1 \<Longrightarrow>
   init_camera opens w =
     (False, w\<lparr>cap := Some \<lparr>index = 1, isOpened = False\<rparr>,
               printed := printed w @ [''FATAL: No camera detected''], running := False\<rparr>)"
  by (simp add: init_camera_def release_def split: option.splits)

text \<open>
  Claim C7. When neither device 0 nor device 1 opens, \<open>run\<close> returns at once, whatever
  the environment would do in the loop: the queue, the data manager, the ledger and the
  latest frame are as before, the flag is cleared, no device is held, and the one line
  printed is the fatal message, once.
\<close>

theorem run_without_camera:
  "\<not> opens 0 \<Longrightarrow> \<not> opens 1 \<Longrightarrow>
   run opens metric ticks w =
     Some (Returned, w\<lparr>cap := Some \<lparr>index = 1, isOpened = False\<rparr>,
                       printed := printed w @ [''FATAL: No camera detected''], running := False\<rparr>)"
  by (simp add: run_def init_camera_no_device)

theorem run_without_camera_witness:
  "\<not> (\<lambda>idx::nat. False) 0 \<and> \<not> (\<lambda>idx::nat. False) 1 \<and>
   run (\<lambda>idx. False) (\<lambda>a b. \<bar>a - b\<bar>)
     [\<lparr>stop_called = False, consumed = False, grabbed = Some (7::nat),
       detections = [(0::real, ''2026-01-05 09:00:00'', NoFault)]\<rparr>]
     (CameraThread_init \<lparr>known_encodings = [0], known_names = [''Bob''], logged_people = {}\<rparr> None []) =
   Some (Returned,
     \<lparr>data_manager = \<lparr>known_encodings = [0], known_names = [''Bob''], logged_people = {}\<rparr>,
      ledger_file = None, frame_queue = [], running = False,
      cap = Some \<lparr>index = 1, isOpened = False\<rparr>, latest_frame = None,
      printed = [''FATAL: No camera detected'']\<rparr>)"
  using run_without_camera [of "\<lambda>idx. False" "\<lambda>a b. \<bar>a - b\<bar>"
     "[\<lparr>stop_called = False, consumed = False, grabbed = Some (7::nat),
       detections = [(0::real, ''2026-01-05 09:00:00'', NoFault)]\<rparr>]"
     "CameraThread_init \<lparr>known_encodings = [0], known_names = [''Bob''], logged_people = {}\<rparr> None []"]
  by (simp add: CameraThread_init_def)





















end
